theory Spec2Isabelle
  imports Complex_Main
begin

section \<open>The voice command bridge of ros\_voice\_control.py\<close>

text \<open>
  The script is Python 2 code for ROS 1 (\<^verbatim>\<open>roslib\<close>, \<^verbatim>\<open>rospy\<close>, the SWIG bindings
  \<^verbatim>\<open>pocketsphinx.pocketsphinx\<close>, \<^verbatim>\<open>print (...)\<close> written as a statement). Two features
  of Python 2 matter for the model:
  \<^item> \<^verbatim>\<open>str\<close> is a byte string, so audio buffers and keyword texts are \<open>string\<close>
    (a list of bytes);
  \<^item> the variable of a list comprehension is a local of the enclosing function and keeps
    the value of the last iteration. \<^verbatim>\<open>parse_asr_result\<close> reads \<^verbatim>\<open>seg\<close> after the
    comprehension over \<^verbatim>\<open>self.decoder.seg()\<close>: it is the last segment, and it is
    unbound (\<^verbatim>\<open>UnboundLocalError\<close>) when the decoder yields no segment.

  Python floats are modelled as \<open>real\<close>. The speed mode is only ever assigned the
  literals 0.2 and 0.4 and compared with the literal 0.2, and the velocity fields are
  only ever multiplied by 2, which binary floating point does exactly short of overflow.

  The decoder, the audio stream and the ROS middleware are collaborators outside the
  script. What they hand to the script (the shutdown flag, the bytes read, the decoder's
  hypothesis) is the input of the model; what the script asks of them is recorded as a
  list of effects, in program order.
\<close>

subsection \<open>Data\<close>

text \<open>\<^verbatim>\<open>geometry_msgs.msg.Vector3\<close> and \<^verbatim>\<open>Twist\<close>; \<^verbatim>\<open>Twist()\<close> is all zeros.\<close>

record vector3 =
  vec_x :: real
  vec_y :: real
  vec_z :: real

record twist =
  linear :: vector3
  angular :: vector3

definition Vector3 :: vector3 where
  "Vector3 = \<lparr>vec_x = 0, vec_y = 0, vec_z = 0\<rparr>"

definition Twist :: twist where
  "Twist = \<lparr>linear = Vector3, angular = Vector3\<rparr>"

text \<open>A segment of the decoder's segmentation, with the four attributes the script reads.\<close>

record segment =
  word :: string
  prob :: int
  start_frame :: int
  end_frame :: int

text \<open>
  What the decoder reports in one cycle: \<^verbatim>\<open>decoder.hyp()\<close> is \<^verbatim>\<open>None\<close>, or a hypothesis
  with its text, and then \<^verbatim>\<open>decoder.seg()\<close> iterates over \<open>segs\<close>.
\<close>

record hypothesis =
  hypstr :: string
  segs :: "segment list"

text \<open>The two attributes of \<^verbatim>\<open>ASRControl\<close> that the script mutates.\<close>

record asr_control =
  speed :: real
  msg :: twist

datatype py_error = UnboundLocalError

text \<open>The calls the script makes on its collaborators.\<close>

datatype effect =
    Init_node string
  | On_shutdown
  | Advertise string
  | Decoder_config string string string
  | Open_stream
  | Start_utt
  | End_utt
  | Process_raw string
  | Print_segs "(string \<times> int \<times> int \<times> int) list"
  | Print string
  | Publish twist
  | Loginfo string
  | Sleep nat

subsection \<open>Strings\<close>

text \<open>\<^verbatim>\<open>str.lower\<close> on a byte string: the ASCII capitals become small letters.\<close>

definition lower_char :: "char \<Rightarrow> char" where
  "lower_char c =
     (let n = (of_char c :: nat) in if 65 \<le> n \<and> n \<le> 90 then char_of (n + 32) else c)"

definition str_lower :: "string \<Rightarrow> string" where
  "str_lower s = map lower_char s"

fun startswith :: "string \<Rightarrow> string \<Rightarrow> bool" where
  "startswith s [] = True"
| "startswith [] (p # ps) = False"
| "startswith (c # cs) (p # ps) = (c = p \<and> startswith cs ps)"

text \<open>
  \<^verbatim>\<open>s.find(sub)\<close>: the lowest index at which \<open>sub\<close> occurs in \<open>s\<close>, or -1.
  \<open>find_from s sub i\<close> searches the rest \<open>s\<close> of the string, which starts at index \<open>i\<close>.
\<close>

fun find_from :: "string \<Rightarrow> string \<Rightarrow> int \<Rightarrow> int" where
  "find_from [] sub i = (if sub = [] then i else - 1)"
| "find_from (c # cs) sub i =
     (if startswith (c # cs) sub then i else find_from cs sub (i + 1))"

definition str_find :: "string \<Rightarrow> string \<Rightarrow> int" where
  "str_find s sub = find_from s sub 0"

subsection \<open>parse\_asr\_result\<close>

text \<open>
  Lines 105 to 121. The result is the list of effects and either the exception that left
  the method or the object after it. \<open>full_speed\<close> is the body of the keyword branch,
  lines 115 to 118.
\<close>

definition full_speed :: "asr_control \<Rightarrow> asr_control" where
  "full_speed self =
     (if speed self = 0.2 then
        (let m1 = (msg self)\<lparr>linear := (linear (msg self))\<lparr>vec_x := vec_x (linear (msg self)) * 2\<rparr>\<rparr>;
             m2 = m1\<lparr>angular := (angular m1)\<lparr>vec_z := vec_z (angular m1) * 2\<rparr>\<rparr>
         in self\<lparr>msg := m2, speed := 0.4\<rparr>)
      else self)"

definition parse_asr_result ::
  "asr_control \<Rightarrow> hypothesis option \<Rightarrow> effect list \<times> (py_error + asr_control)" where
  "parse_asr_result self d =
     (case d of
        None \<Rightarrow> ([Publish (msg self)], Inr self)
      | Some h \<Rightarrow>
          (let printed =
                 [Print_segs (map (\<lambda>seg. (word seg, prob seg, start_frame seg, end_frame seg))
                                  (segs h)),
                  Print ''Detected keyphrase, restarting search'']
           in if segs h = [] then (printed, Inl UnboundLocalError)
              else
                (let seg = last (segs h);
                     seg = seg\<lparr>word := str_lower (word seg)\<rparr>;
                     self' = (if str_find (word seg) ''full speed'' > - 1
                              then full_speed self else self)
                 in (printed @ [End_utt, Start_utt, Publish (msg self')], Inr self'))))"

text \<open>
  The test of line 114 is reached and holds: the comprehension left a segment in
  \<^verbatim>\<open>seg\<close>, and its word, in lower case, contains the keyword.
\<close>

definition full_speed_detected :: "hypothesis \<Rightarrow> bool" where
  "full_speed_detected h =
     (segs h \<noteq> [] \<and> - 1 < str_find (str_lower (word (last (segs h)))) ''full speed'')"

text \<open>Lines 124 to 127.\<close>

definition shutdown :: "asr_control \<Rightarrow> effect list \<times> asr_control" where
  "shutdown self = ([Loginfo ''Stop ASRControl'', Publish Twist, Sleep 1], self)"

subsection \<open>The constructor and its loop\<close>

text \<open>
  One turn of the loop of lines 96 to 102 as the environment decides it: either
  \<^verbatim>\<open>rospy.is_shutdown()\<close> is true at the loop head, or \<^verbatim>\<open>stream.read(1024)\<close> returns
  a buffer, and the decoder, once fed a non-empty buffer, reports a hypothesis or none.
\<close>

datatype iteration =
    Is_shutdown
  | Audio string "hypothesis option"

datatype exit_reason = Shutdown_flag | End_of_stream | Uncaught py_error

text \<open>
  The loop has no bound of its own: it runs as long as the environment supplies turns.
  \<open>Running\<close> is the loop after the last turn supplied, waiting in the next read.
\<close>

datatype status = Running | Exited exit_reason

fun main_loop :: "asr_control \<Rightarrow> iteration list \<Rightarrow> effect list \<times> status \<times> asr_control" where
  "main_loop self [] = ([], Running, self)"
| "main_loop self (Is_shutdown # rest) = ([], Exited Shutdown_flag, self)"
| "main_loop self (Audio buf d # rest) =
     (if buf \<noteq> [] then
        (case parse_asr_result self d of
           (out, Inl e) \<Rightarrow> (Process_raw buf # out, Exited (Uncaught e), self)
         | (out, Inr self') \<Rightarrow>
             (case main_loop self' rest of
                (out', st, self'') \<Rightarrow> (Process_raw buf # out @ out', st, self'')))
      else ([], Exited End_of_stream, self))"

text \<open>Lines 73 to 102: \<^verbatim>\<open>ASRControl(model, lexicon, kwlist, pub)\<close>.\<close>

definition ASRControl ::
  "string \<Rightarrow> string \<Rightarrow> string \<Rightarrow> string \<Rightarrow> iteration list
     \<Rightarrow> effect list \<times> status \<times> asr_control" where
  "ASRControl model lexicon kwlist pub turns =
     (let self = \<lparr>speed = 0.2, msg = Twist\<rparr>;
          setup = [Init_node ''voice_cmd_vel'', On_shutdown, Advertise pub,
                   Decoder_config model lexicon kwlist, Open_stream, Start_utt]
      in case main_loop self turns of (out, st, self') \<Rightarrow> (setup @ out, st, self'))"

text \<open>The messages published, in order.\<close>

fun publishes :: "effect list \<Rightarrow> twist list" where
  "publishes [] = []"
| "publishes (Publish t # es) = t # publishes es"
| "publishes (e # es) = publishes es"

text \<open>A turn in which the read returns data and the decoder has no hypothesis.\<close>

fun silent :: "iteration \<Rightarrow> bool" where
  "silent Is_shutdown = False"
| "silent (Audio buf d) = (buf \<noteq> [] \<and> d = None)"

section \<open>Facts about the model\<close>

subsection \<open>Strings\<close>

text \<open>\<^verbatim>\<open>s.find(sub) > -1\<close> is substring containment.\<close>

lemma startswith_iff: "startswith s p \<longleftrightarrow> (\<exists>post. s = p @ post)"
  by (induction s p rule: startswith.induct) auto

lemma find_from_found_iff:
  "- 1 < i \<Longrightarrow> - 1 < find_from s sub i \<longleftrightarrow> (\<exists>pre post. s = pre @ sub @ post)"
proof (induction s arbitrary: i)
  case Nil
  then show ?case by auto
next
  case (Cons c cs)
  show ?case
  proof (cases "startswith (c # cs) sub")
    case True
    then obtain post where "c # cs = sub @ post" by (auto simp: startswith_iff)
    then have "c # cs = [] @ sub @ post" by simp
    then have "\<exists>pre post. c # cs = pre @ sub @ post" by blast
    with True Cons.prems show ?thesis by simp
  next
    case False
    have "(\<exists>pre post. c # cs = pre @ sub @ post) \<longleftrightarrow> (\<exists>pre post. cs = pre @ sub @ post)"
    proof
      assume "\<exists>pre post. c # cs = pre @ sub @ post"
      then obtain pre post where e: "c # cs = pre @ sub @ post" by blast
      show "\<exists>pre post. cs = pre @ sub @ post"
      proof (cases pre)
        case Nil
        with e False show ?thesis by (auto simp: startswith_iff)
      next
        case (Cons a pre')
        with e have "cs = pre' @ sub @ post" by simp
        then show ?thesis by blast
      qed
    next
      assume "\<exists>pre post. cs = pre @ sub @ post"
      then obtain pre post where "cs = pre @ sub @ post" by blast
      then have "c # cs = (c # pre) @ sub @ post" by simp
      then show "\<exists>pre post. c # cs = pre @ sub @ post" by blast
    qed
    moreover have "- 1 < i + 1" using Cons.prems by simp
    ultimately show ?thesis using False Cons.IH [of "i + 1"] by simp
  qed
qed

lemma str_find_found_iff: "- 1 < str_find s sub \<longleftrightarrow> (\<exists>pre post. s = pre @ sub @ post)"
  by (simp add: str_find_def find_from_found_iff)

subsection \<open>One call of parse\_asr\_result, one call of shutdown\<close>

lemma publishes_append: "publishes (es @ fs) = publishes es @ publishes fs"
  by (induction es rule: publishes.induct) simp_all

lemma parse_asr_result_None: "parse_asr_result self None = ([Publish (msg self)], Inr self)"
  by (simp add: parse_asr_result_def)

lemma parse_asr_result_publishes:
  "parse_asr_result self d = (out, Inr self') \<Longrightarrow> publishes out = [msg self']"
  by (auto simp: parse_asr_result_def Let_def split: option.splits if_splits)

lemma parse_asr_result_raises:
  "parse_asr_result self d = (out, Inl e) \<Longrightarrow> publishes out = []"
  by (auto simp: parse_asr_result_def Let_def split: option.splits if_splits)

lemma parse_asr_result_cases:
  "parse_asr_result self d = (out, Inr self') \<Longrightarrow> self' = self \<or> self' = full_speed self"
  by (auto simp: parse_asr_result_def Let_def split: option.splits if_splits)

lemma full_speed_speed: "speed (full_speed self) = (if speed self = 0.2 then 0.4 else speed self)"
  by (simp add: full_speed_def Let_def)

lemma full_speed_Twist: "msg self = Twist \<Longrightarrow> msg (full_speed self) = Twist"
  by (simp add: full_speed_def Let_def Twist_def Vector3_def)

lemma full_speed_idem: "full_speed (full_speed self) = full_speed self"
  by (simp add: full_speed_def Let_def)

lemma parse_asr_result_detected:
  "full_speed_detected h \<Longrightarrow>
   parse_asr_result self (Some h) =
     ([Print_segs (map (\<lambda>seg. (word seg, prob seg, start_frame seg, end_frame seg)) (segs h)),
       Print ''Detected keyphrase, restarting search'',
       End_utt, Start_utt, Publish (msg (full_speed self))], Inr (full_speed self))"
  by (simp add: parse_asr_result_def full_speed_detected_def Let_def)

lemma parse_asr_result_speed:
  "parse_asr_result self d = (out, Inr self') \<Longrightarrow>
   speed self' = speed self \<or> speed self = 0.2 \<and> speed self' = 0.4"
  by (auto dest!: parse_asr_result_cases simp: full_speed_speed split: if_splits)

text \<open>
  The script never calls \<^verbatim>\<open>shutdown\<close> itself: line 79 hands it to \<^verbatim>\<open>rospy.on_shutdown\<close>
  (the effect \<open>On_shutdown\<close>), and the middleware decides when it runs. Whenever it runs, it
  publishes once, the zero command, whatever command the object holds.
\<close>

lemma shutdown_publishes_zero_once:
  "publishes (fst (shutdown self)) = [Twist] \<and> snd (shutdown self) = self"
  by (simp add: shutdown_def)

subsection \<open>The loop\<close>

lemma main_loop_append:
  "main_loop self (xs @ ys) =
     (case main_loop self xs of
        (out, Running, self') \<Rightarrow>
          (case main_loop self' ys of (out', st, self'') \<Rightarrow> (out @ out', st, self''))
      | (out, Exited r, self') \<Rightarrow> (out, Exited r, self'))"
proof (induction xs arbitrary: self)
  case Nil
  then show ?case by (simp split: prod.splits)
next
  case (Cons t xs)
  show ?case
  proof (cases t)
    case Is_shutdown
    then show ?thesis by simp
  next
    case (Audio buf d)
    then show ?thesis
      by (simp add: Cons.IH split: prod.splits sum.splits status.splits)
  qed
qed

lemma main_loop_append_state:
  "main_loop self xs = (out, st, self') \<Longrightarrow>
   snd (snd (main_loop self (xs @ ys))) =
     (case st of Running \<Rightarrow> snd (snd (main_loop self' ys)) | Exited r \<Rightarrow> self')"
  by (cases "main_loop self' ys") (simp add: main_loop_append split: status.splits)

lemma main_loop_invariant:
  assumes step: "\<And>s d out s'. P s \<Longrightarrow> parse_asr_result s d = (out, Inr s') \<Longrightarrow> P s'"
    and init: "P self"
  shows "P (snd (snd (main_loop self turns)))"
  using init
proof (induction turns arbitrary: self)
  case Nil
  then show ?case by simp
next
  case (Cons t turns)
  show ?case
  proof (cases t)
    case Is_shutdown
    with Cons.prems show ?thesis by simp
  next
    case (Audio buf d)
    show ?thesis
    proof (cases "parse_asr_result self d")
      case (Pair out r)
      show ?thesis
      proof (cases r)
        case (Inl e)
        with Pair Audio Cons.prems show ?thesis by simp
      next
        case (Inr s')
        with Pair Cons.prems have "P s'" by (auto intro: step)
        then have "P (snd (snd (main_loop s' turns)))" by (rule Cons.IH)
        with Pair Inr Audio Cons.prems show ?thesis by (auto split: prod.splits)
      qed
    qed
  qed
qed

lemma main_loop_speed_values:
  "speed self = 0.2 \<or> speed self = 0.4 \<Longrightarrow>
   speed (snd (snd (main_loop self turns))) = 0.2 \<or>
   speed (snd (snd (main_loop self turns))) = 0.4"
  by (rule main_loop_invariant [where P = "\<lambda>s. speed s = 0.2 \<or> speed s = 0.4"])
     (auto dest: parse_asr_result_speed)

lemma main_loop_speed_elevated:
  "speed self = 0.4 \<Longrightarrow> speed (snd (snd (main_loop self turns))) = 0.4"
  by (rule main_loop_invariant [where P = "\<lambda>s. speed s = 0.4"])
     (auto dest: parse_asr_result_speed)

lemma main_loop_msg_Twist:
  "msg self = Twist \<Longrightarrow> msg (snd (snd (main_loop self turns))) = Twist"
  by (rule main_loop_invariant [where P = "\<lambda>s. msg s = Twist"])
     (auto dest: parse_asr_result_cases simp: full_speed_Twist)

lemma main_loop_publishes_Twist:
  "msg self = Twist \<Longrightarrow> list_all (\<lambda>t. t = Twist) (publishes (fst (main_loop self turns)))"
proof (induction turns arbitrary: self)
  case Nil
  then show ?case by simp
next
  case (Cons t turns)
  show ?case
  proof (cases t)
    case Is_shutdown
    then show ?thesis by simp
  next
    case (Audio buf d)
    show ?thesis
    proof (cases "parse_asr_result self d")
      case (Pair out r)
      show ?thesis
      proof (cases r)
        case (Inl e)
        with Pair Audio show ?thesis by (simp add: parse_asr_result_raises)
      next
        case (Inr s')
        with Pair have "s' = self \<or> s' = full_speed self"
          by (auto dest: parse_asr_result_cases)
        with Cons.prems have z: "msg s' = Twist" by (auto simp: full_speed_Twist)
        from Pair Inr have p: "publishes out = [msg s']" by (auto dest: parse_asr_result_publishes)
        have "list_all (\<lambda>t. t = Twist) (publishes (fst (main_loop s' turns)))"
          using z by (rule Cons.IH)
        with Pair Inr Audio p z show ?thesis
          by (auto split: prod.splits simp: publishes_append)
      qed
    qed
  qed
qed

lemma iteration_publishes_once:
  assumes "buf \<noteq> []" and "d = None \<or> (\<exists>h. d = Some h \<and> segs h \<noteq> [])"
  shows "\<exists>out self'. main_loop self [Audio buf d] = (out, Running, self') \<and>
                      publishes out = [msg self']"
  using assms by (auto simp: parse_asr_result_def Let_def)

lemma ASRControl_state:
  "snd (snd (ASRControl model lexicon kwlist pub turns)) =
     snd (snd (main_loop \<lparr>speed = 0.2, msg = Twist\<rparr> turns))"
  by (cases "main_loop \<lparr>speed = 0.2, msg = Twist\<rparr> turns") (simp add: ASRControl_def)

lemma ASRControl_publishes:
  "publishes (fst (ASRControl model lexicon kwlist pub turns)) =
     publishes (fst (main_loop \<lparr>speed = 0.2, msg = Twist\<rparr> turns))"
  by (cases "main_loop \<lparr>speed = 0.2, msg = Twist\<rparr> turns") (simp add: ASRControl_def)

section \<open>The claims\<close>

text \<open>
  Claim C1. When \<^verbatim>\<open>parse_asr_result\<close> detects the keyword "full speed" while the speed
  mode is the baseline 0.2, the call returns, the command it publishes is the command
  held before with \<^verbatim>\<open>linear.x\<close> and \<^verbatim>\<open>angular.z\<close> multiplied by 2 (whatever they
  were; the other components are kept), and the speed mode is 0.4 afterwards.
\<close>

theorem full_speed_doubles_command:
  assumes "full_speed_detected h" and "speed self = 0.2"
  shows "\<exists>out self'.
           parse_asr_result self (Some h) = (out, Inr self') \<and>
           publishes out = [msg self'] \<and>
           msg self' =
             (msg self)\<lparr>linear := (linear (msg self))\<lparr>vec_x := 2 * vec_x (linear (msg self))\<rparr>,
                        angular := (angular (msg self))\<lparr>vec_z := 2 * vec_z (angular (msg self))\<rparr>\<rparr> \<and>
           speed self' = 0.4"
proof -
  have "msg (full_speed self) =
          (msg self)\<lparr>linear := (linear (msg self))\<lparr>vec_x := 2 * vec_x (linear (msg self))\<rparr>,
                     angular := (angular (msg self))\<lparr>vec_z := 2 * vec_z (angular (msg self))\<rparr>\<rparr>"
    using assms(2) by (simp add: full_speed_def Let_def mult.commute)
  moreover have "speed (full_speed self) = 0.4"
    using assms(2) by (simp add: full_speed_speed)
  ultimately show ?thesis
    using assms(1) by (simp add: parse_asr_result_detected)
qed

theorem full_speed_doubles_command_witness:
  "\<exists>out self'.
     parse_asr_result
       \<lparr>speed = 0.2,
        msg = \<lparr>linear = \<lparr>vec_x = 0.5, vec_y = 0, vec_z = 0\<rparr>,
               angular = \<lparr>vec_x = 0, vec_y = 0, vec_z = 0.3\<rparr>\<rparr>\<rparr>
       (Some \<lparr>hypstr = ''FULL SPEED'',
              segs = [\<lparr>word = ''FULL SPEED'', prob = 0, start_frame = 12, end_frame = 57\<rparr>]\<rparr>)
       = (out, Inr self') \<and>
     publishes out = [msg self'] \<and>
     msg self' = \<lparr>linear = \<lparr>vec_x = 1, vec_y = 0, vec_z = 0\<rparr>,
                  angular = \<lparr>vec_x = 0, vec_y = 0, vec_z = 0.6\<rparr>\<rparr> \<and>
     speed self' = 0.4"
proof -
  have d: "full_speed_detected
             \<lparr>hypstr = ''FULL SPEED'',
              segs = [\<lparr>word = ''FULL SPEED'', prob = 0, start_frame = 12, end_frame = 57\<rparr>]\<rparr>"
    by code_simp
  have b: "speed \<lparr>speed = 0.2,
        msg = \<lparr>linear = \<lparr>vec_x = 0.5, vec_y = 0, vec_z = 0\<rparr>,
               angular = \<lparr>vec_x = 0, vec_y = 0, vec_z = 0.3\<rparr>\<rparr>\<rparr> = 0.2"
    by simp
  from full_speed_doubles_command [OF d b] show ?thesis by simp
qed

text \<open>
  Claim C2. A detection of "full speed" while the speed mode is already 0.4 leaves the
  object as it is and publishes the command held. From the baseline, a second detection
  after a first one leaves the object as the first one left it and publishes the same
  command as the first: the doubling is applied once.
\<close>

theorem repeated_full_speed_idempotent:
  assumes "full_speed_detected h1" and "full_speed_detected h2"
  shows "(speed self = 0.4 \<longrightarrow>
            (\<exists>out. parse_asr_result self (Some h2) = (out, Inr self) \<and>
                   publishes out = [msg self])) \<and>
         (speed self = 0.2 \<longrightarrow>
            (\<exists>out1 out2 self1.
               parse_asr_result self (Some h1) = (out1, Inr self1) \<and>
               parse_asr_result self1 (Some h2) = (out2, Inr self1) \<and>
               publishes out2 = publishes out1))"
proof -
  have "full_speed self = self" if "speed self = 0.4"
    using that by (simp add: full_speed_def)
  then show ?thesis
    using assms by (simp add: parse_asr_result_detected full_speed_idem)
qed

theorem repeated_full_speed_idempotent_witness:
  "\<exists>out1 out2 self1.
     parse_asr_result
       \<lparr>speed = 0.2,
        msg = \<lparr>linear = \<lparr>vec_x = 0.5, vec_y = 0, vec_z = 0\<rparr>,
               angular = \<lparr>vec_x = 0, vec_y = 0, vec_z = 0.3\<rparr>\<rparr>\<rparr>
       (Some \<lparr>hypstr = ''full speed'',
              segs = [\<lparr>word = ''full speed'', prob = 0, start_frame = 12, end_frame = 57\<rparr>]\<rparr>)
       = (out1, Inr self1) \<and>
     parse_asr_result self1
       (Some \<lparr>hypstr = ''stop full speed'',
              segs = [\<lparr>word = ''stop'', prob = 0, start_frame = 3, end_frame = 20\<rparr>,
                      \<lparr>word = ''full speed'', prob = 0, start_frame = 31, end_frame = 80\<rparr>]\<rparr>)
       = (out2, Inr self1) \<and>
     publishes out2 = publishes out1 \<and>
     publishes out1 = [\<lparr>linear = \<lparr>vec_x = 1, vec_y = 0, vec_z = 0\<rparr>,
                        angular = \<lparr>vec_x = 0, vec_y = 0, vec_z = 0.6\<rparr>\<rparr>]"
proof -
  have d1: "full_speed_detected
              \<lparr>hypstr = ''full speed'',
               segs = [\<lparr>word = ''full speed'', prob = 0, start_frame = 12, end_frame = 57\<rparr>]\<rparr>"
    by code_simp
  have d2: "full_speed_detected
              \<lparr>hypstr = ''stop full speed'',
               segs = [\<lparr>word = ''stop'', prob = 0, start_frame = 3, end_frame = 20\<rparr>,
                       \<lparr>word = ''full speed'', prob = 0, start_frame = 31, end_frame = 80\<rparr>]\<rparr>"
    by code_simp
  have p: "publishes (fst (parse_asr_result
       \<lparr>speed = 0.2,
        msg = \<lparr>linear = \<lparr>vec_x = 0.5, vec_y = 0, vec_z = 0\<rparr>,
               angular = \<lparr>vec_x = 0, vec_y = 0, vec_z = 0.3\<rparr>\<rparr>\<rparr>
       (Some \<lparr>hypstr = ''full speed'',
              segs = [\<lparr>word = ''full speed'', prob = 0, start_frame = 12, end_frame = 57\<rparr>]\<rparr>)))
       = [\<lparr>linear = \<lparr>vec_x = 1, vec_y = 0, vec_z = 0\<rparr>,
                        angular = \<lparr>vec_x = 0, vec_y = 0, vec_z = 0.6\<rparr>\<rparr>]"
    by (simp add: parse_asr_result_detected [OF d1] full_speed_def)
  from repeated_full_speed_idempotent [OF d1 d2, of "\<lparr>speed = 0.2,
        msg = \<lparr>linear = \<lparr>vec_x = 0.5, vec_y = 0, vec_z = 0\<rparr>,
               angular = \<lparr>vec_x = 0, vec_y = 0, vec_z = 0.3\<rparr>\<rparr>\<rparr>"] p
  show ?thesis by auto
qed

text \<open>
  Claim C4. Without a hypothesis \<^verbatim>\<open>parse_asr_result\<close> only publishes the command held
  and changes neither the command nor the speed mode. Over any sequence of turns in which
  the read returns data and the decoder has no hypothesis, the loop keeps running, each
  turn publishes the command held at the start of the sequence, and the object at the end
  is the object at the start.
\<close>

theorem no_hypothesis_keeps_command:
  assumes "list_all silent turns"
  shows "parse_asr_result self None = ([Publish (msg self)], Inr self) \<and>
         (\<exists>out. main_loop self turns = (out, Running, self) \<and>
                publishes out = replicate (length turns) (msg self))"
proof -
  have "\<exists>out. main_loop self turns = (out, Running, self) \<and>
              publishes out = replicate (length turns) (msg self)"
    using assms
  proof (induction turns)
    case Nil
    then show ?case by simp
  next
    case (Cons t turns)
    then obtain buf where t: "t = Audio buf None" and buf: "buf \<noteq> []"
      by (cases t) auto
    from Cons obtain out where "main_loop self turns = (out, Running, self)"
      and "publishes out = replicate (length turns) (msg self)"
      by auto
    with t buf show ?case by (simp add: parse_asr_result_None)
  qed
  then show ?thesis by (simp add: parse_asr_result_None)
qed

theorem no_hypothesis_keeps_command_witness:
  "list_all silent [Audio ''ab'' None, Audio ''c'' None, Audio ''de'' None] \<and>
   (\<exists>out. main_loop
             \<lparr>speed = 0.2,
              msg = \<lparr>linear = \<lparr>vec_x = 0.5, vec_y = 0, vec_z = 0\<rparr>,
                     angular = \<lparr>vec_x = 0, vec_y = 0, vec_z = 0.3\<rparr>\<rparr>\<rparr>
             [Audio ''ab'' None, Audio ''c'' None, Audio ''de'' None]
           = (out, Running,
              \<lparr>speed = 0.2,
               msg = \<lparr>linear = \<lparr>vec_x = 0.5, vec_y = 0, vec_z = 0\<rparr>,
                      angular = \<lparr>vec_x = 0, vec_y = 0, vec_z = 0.3\<rparr>\<rparr>\<rparr>) \<and>
          publishes out =
            [\<lparr>linear = \<lparr>vec_x = 0.5, vec_y = 0, vec_z = 0\<rparr>,
              angular = \<lparr>vec_x = 0, vec_y = 0, vec_z = 0.3\<rparr>\<rparr>,
             \<lparr>linear = \<lparr>vec_x = 0.5, vec_y = 0, vec_z = 0\<rparr>,
              angular = \<lparr>vec_x = 0, vec_y = 0, vec_z = 0.3\<rparr>\<rparr>,
             \<lparr>linear = \<lparr>vec_x = 0.5, vec_y = 0, vec_z = 0\<rparr>,
              angular = \<lparr>vec_x = 0, vec_y = 0, vec_z = 0.3\<rparr>\<rparr>])"
proof -
  have s: "list_all silent [Audio ''ab'' None, Audio ''c'' None, Audio ''de'' None]"
    by simp
  from no_hypothesis_keeps_command [OF s, of "\<lparr>speed = 0.2,
              msg = \<lparr>linear = \<lparr>vec_x = 0.5, vec_y = 0, vec_z = 0\<rparr>,
                     angular = \<lparr>vec_x = 0, vec_y = 0, vec_z = 0.3\<rparr>\<rparr>\<rparr>"] s
  show ?thesis by (simp add: numeral_3_eq_3)
qed

text \<open>
  Claim C5 says that the keyword tests are made on the lower-cased text of the current
  hypothesis, not on a part of it. The code makes them on the word of the last segment
  only. Here the hypothesis text contains "full speed", its last segment is "stop", and
  the call leaves the speed mode and the command as they were.
\<close>

theorem dispatch_tests_last_segment_only:
  "- 1 < str_find (str_lower ''full speed stop'') ''full speed'' \<and>
   snd (parse_asr_result \<lparr>speed = 0.2, msg = Twist\<rparr>
          (Some \<lparr>hypstr = ''full speed stop'',
                 segs = [\<lparr>word = ''full speed'', prob = 0, start_frame = 12, end_frame = 57\<rparr>,
                         \<lparr>word = ''stop'', prob = 0, start_frame = 60, end_frame = 85\<rparr>]\<rparr>))
     = Inr \<lparr>speed = 0.2, msg = Twist\<rparr>"
  by code_simp

text \<open>
  Claim C6 says that every turn whose read returns data publishes exactly once. When the
  decoder has a hypothesis and yields no segment, \<^verbatim>\<open>seg\<close> is unbound at line 110, the
  exception leaves \<^verbatim>\<open>parse_asr_result\<close> before line 121, and the turn publishes nothing.
\<close>

theorem no_publish_when_no_segment:
  "main_loop \<lparr>speed = 0.2, msg = Twist\<rparr>
     [Audio ''ab'' (Some \<lparr>hypstr = ''full speed'', segs = []\<rparr>)]
     = ([Process_raw ''ab'', Print_segs [], Print ''Detected keyphrase, restarting search''],
        Exited (Uncaught UnboundLocalError), \<lparr>speed = 0.2, msg = Twist\<rparr>) \<and>
   publishes (fst (main_loop \<lparr>speed = 0.2, msg = Twist\<rparr>
     [Audio ''ab'' (Some \<lparr>hypstr = ''full speed'', segs = []\<rparr>)])) = []"
  by (simp add: parse_asr_result_def)

text \<open>
  Claim C7. A read that returns no data ends the loop, whatever turns came before it:
  the effects are those of the turns before (no \<open>Process_raw\<close> and no \<open>Publish\<close> for the
  empty read), the object is unchanged, and the exit is the end of stream, not an
  exception.
\<close>

theorem empty_read_ends_loop:
  assumes "main_loop self turns = (out, Running, self')"
  shows "main_loop self (turns @ Audio [] d # rest) = (out, Exited End_of_stream, self')"
  using assms by (simp add: main_loop_append)

theorem empty_read_ends_loop_witness:
  "main_loop \<lparr>speed = 0.2, msg = Twist\<rparr> [Audio ''ab'' None]
     = ([Process_raw ''ab'', Publish Twist], Running, \<lparr>speed = 0.2, msg = Twist\<rparr>) \<and>
   main_loop \<lparr>speed = 0.2, msg = Twist\<rparr>
       ([Audio ''ab'' None] @ Audio [] None # [Audio ''cd'' None])
     = ([Process_raw ''ab'', Publish Twist], Exited End_of_stream, \<lparr>speed = 0.2, msg = Twist\<rparr>)"
proof -
  have r: "main_loop \<lparr>speed = 0.2, msg = Twist\<rparr> [Audio ''ab'' None]
     = ([Process_raw ''ab'', Publish Twist], Running, \<lparr>speed = 0.2, msg = Twist\<rparr>)"
    by (simp add: parse_asr_result_None)
  from r empty_read_ends_loop [OF r, of None "[Audio ''cd'' None]"] show ?thesis
    by simp
qed

text \<open>
  Claim C8. After the constructor has run for any sequence of turns, the speed mode is
  0.2 or 0.4, and \<^verbatim>\<open>shutdown\<close> does not change it.
\<close>

theorem speed_mode_two_values:
  "(speed (snd (snd (ASRControl model lexicon kwlist pub turns))) = 0.2 \<or>
    speed (snd (snd (ASRControl model lexicon kwlist pub turns))) = 0.4) \<and>
   speed (snd (shutdown (snd (snd (ASRControl model lexicon kwlist pub turns))))) =
     speed (snd (snd (ASRControl model lexicon kwlist pub turns)))"
proof -
  have "speed (snd (snd (main_loop \<lparr>speed = 0.2, msg = Twist\<rparr> turns))) = 0.2 \<or>
        speed (snd (snd (main_loop \<lparr>speed = 0.2, msg = Twist\<rparr> turns))) = 0.4"
    by (rule main_loop_speed_values) simp
  then show ?thesis
    by (simp add: ASRControl_state shutdown_def)
qed

theorem speed_mode_two_values_witness:
  "speed (snd (snd (ASRControl ''model'' ''voice_cmd.dic'' ''voice_cmd.kwlist'' ''cmd_vel''
      [Audio ''ab'' None,
       Audio ''cd'' (Some \<lparr>hypstr = ''full speed'',
          segs = [\<lparr>word = ''full speed'', prob = 0, start_frame = 12, end_frame = 57\<rparr>]\<rparr>)]))) = 0.4 \<and>
   speed (snd (shutdown (snd (snd (ASRControl ''model'' ''voice_cmd.dic'' ''voice_cmd.kwlist'' ''cmd_vel''
      [Audio ''ab'' None,
       Audio ''cd'' (Some \<lparr>hypstr = ''full speed'',
          segs = [\<lparr>word = ''full speed'', prob = 0, start_frame = 12, end_frame = 57\<rparr>]\<rparr>)]))))) = 0.4"
proof -
  have e: "speed (snd (snd (ASRControl ''model'' ''voice_cmd.dic'' ''voice_cmd.kwlist'' ''cmd_vel''
      [Audio ''ab'' None,
       Audio ''cd'' (Some \<lparr>hypstr = ''full speed'',
          segs = [\<lparr>word = ''full speed'', prob = 0, start_frame = 12, end_frame = 57\<rparr>]\<rparr>)]))) = 0.4"
    by code_simp
  from speed_mode_two_values [of "''model''" "''voice_cmd.dic''" "''voice_cmd.kwlist''" "''cmd_vel''"
      "[Audio ''ab'' None,
       Audio ''cd'' (Some \<lparr>hypstr = ''full speed'',
          segs = [\<lparr>word = ''full speed'', prob = 0, start_frame = 12, end_frame = 57\<rparr>]\<rparr>)]"] e
  show ?thesis by simp
qed

text \<open>
  Claim C9. Every command the constructor publishes, for any sequence of turns, is the
  zero command \<^verbatim>\<open>Twist()\<close>, and the command held by the object stays the zero command.
\<close>

theorem only_zero_command_published:
  "list_all (\<lambda>t. t = Twist) (publishes (fst (ASRControl model lexicon kwlist pub turns))) \<and>
   msg (snd (snd (ASRControl model lexicon kwlist pub turns))) = Twist"
proof -
  have "list_all (\<lambda>t. t = Twist) (publishes (fst (main_loop \<lparr>speed = 0.2, msg = Twist\<rparr> turns)))"
    by (rule main_loop_publishes_Twist) simp
  moreover have "msg (snd (snd (main_loop \<lparr>speed = 0.2, msg = Twist\<rparr> turns))) = Twist"
    by (rule main_loop_msg_Twist) simp
  ultimately show ?thesis
    by (simp add: ASRControl_state ASRControl_publishes)
qed

theorem only_zero_command_published_witness:
  "list_all (\<lambda>t. t = Twist)
     (publishes (fst (ASRControl ''model'' ''voice_cmd.dic'' ''voice_cmd.kwlist'' ''cmd_vel''
      [Audio ''ab'' None,
       Audio ''cd'' (Some \<lparr>hypstr = ''full speed'',
          segs = [\<lparr>word = ''full speed'', prob = 0, start_frame = 12, end_frame = 57\<rparr>]\<rparr>)]))) \<and>
   length
     (publishes (fst (ASRControl ''model'' ''voice_cmd.dic'' ''voice_cmd.kwlist'' ''cmd_vel''
      [Audio ''ab'' None,
       Audio ''cd'' (Some \<lparr>hypstr = ''full speed'',
          segs = [\<lparr>word = ''full speed'', prob = 0, start_frame = 12, end_frame = 57\<rparr>]\<rparr>)]))) = 2 \<and>
   speed (snd (snd (ASRControl ''model'' ''voice_cmd.dic'' ''voice_cmd.kwlist'' ''cmd_vel''
      [Audio ''ab'' None,
       Audio ''cd'' (Some \<lparr>hypstr = ''full speed'',
          segs = [\<lparr>word = ''full speed'', prob = 0, start_frame = 12, end_frame = 57\<rparr>]\<rparr>)]))) = 0.4 \<and>
   msg (snd (snd (ASRControl ''model'' ''voice_cmd.dic'' ''voice_cmd.kwlist'' ''cmd_vel''
      [Audio ''ab'' None,
       Audio ''cd'' (Some \<lparr>hypstr = ''full speed'',
          segs = [\<lparr>word = ''full speed'', prob = 0, start_frame = 12, end_frame = 57\<rparr>]\<rparr>)]))) = Twist"
proof -
  have n: "length
     (publishes (fst (ASRControl ''model'' ''voice_cmd.dic'' ''voice_cmd.kwlist'' ''cmd_vel''
      [Audio ''ab'' None,
       Audio ''cd'' (Some \<lparr>hypstr = ''full speed'',
          segs = [\<lparr>word = ''full speed'', prob = 0, start_frame = 12, end_frame = 57\<rparr>]\<rparr>)]))) = 2"
    by code_simp
  have e: "speed (snd (snd (ASRControl ''model'' ''voice_cmd.dic'' ''voice_cmd.kwlist'' ''cmd_vel''
      [Audio ''ab'' None,
       Audio ''cd'' (Some \<lparr>hypstr = ''full speed'',
          segs = [\<lparr>word = ''full speed'', prob = 0, start_frame = 12, end_frame = 57\<rparr>]\<rparr>)]))) = 0.4"
    by code_simp
  from only_zero_command_published [of "''model''" "''voice_cmd.dic''" "''voice_cmd.kwlist''" "''cmd_vel''"
      "[Audio ''ab'' None,
       Audio ''cd'' (Some \<lparr>hypstr = ''full speed'',
          segs = [\<lparr>word = ''full speed'', prob = 0, start_frame = 12, end_frame = 57\<rparr>]\<rparr>)]"] n e
  show ?thesis by blast
qed

text \<open>
  Claim C10. Once the speed mode is 0.4 after some turns of a run, it is 0.4 after any
  further turns of that run, and after \<^verbatim>\<open>shutdown\<close>: it never returns to 0.2.
\<close>

theorem speed_mode_never_returns:
  assumes "speed (snd (snd (ASRControl model lexicon kwlist pub turns))) = 0.4"
  shows "speed (snd (snd (ASRControl model lexicon kwlist pub (turns @ later)))) = 0.4 \<and>
         speed (snd (shutdown (snd (snd (ASRControl model lexicon kwlist pub (turns @ later))))))
           = 0.4"
proof -
  obtain out st s where r: "main_loop \<lparr>speed = 0.2, msg = Twist\<rparr> turns = (out, st, s)"
    by (cases "main_loop \<lparr>speed = 0.2, msg = Twist\<rparr> turns") auto
  with assms have e: "speed s = 0.4" by (simp add: ASRControl_state)
  have "speed (snd (snd (main_loop s later))) = 0.4"
    using e by (rule main_loop_speed_elevated)
  moreover have "snd (snd (main_loop \<lparr>speed = 0.2, msg = Twist\<rparr> (turns @ later))) =
      (case st of Running \<Rightarrow> snd (snd (main_loop s later)) | Exited r \<Rightarrow> s)"
    using r by (rule main_loop_append_state)
  ultimately
  have "speed (snd (snd (main_loop \<lparr>speed = 0.2, msg = Twist\<rparr> (turns @ later)))) = 0.4"
    using e by (cases st) simp_all
  then show ?thesis
    by (simp add: ASRControl_state shutdown_def)
qed

theorem speed_mode_never_returns_witness:
  "speed (snd (snd (ASRControl ''model'' ''voice_cmd.dic'' ''voice_cmd.kwlist'' ''cmd_vel''
      [Audio ''ab'' (Some \<lparr>hypstr = ''full speed'',
          segs = [\<lparr>word = ''full speed'', prob = 0, start_frame = 12, end_frame = 57\<rparr>]\<rparr>)]))) = 0.4 \<and>
   speed (snd (snd (ASRControl ''model'' ''voice_cmd.dic'' ''voice_cmd.kwlist'' ''cmd_vel''
      ([Audio ''ab'' (Some \<lparr>hypstr = ''full speed'',
          segs = [\<lparr>word = ''full speed'', prob = 0, start_frame = 12, end_frame = 57\<rparr>]\<rparr>)] @
       [Audio ''cd'' (Some \<lparr>hypstr = ''full speed'',
          segs = [\<lparr>word = ''full speed'', prob = 0, start_frame = 3, end_frame = 40\<rparr>]\<rparr>),
        Audio ''ef'' None, Is_shutdown])))) = 0.4"
proof -
  have e: "speed (snd (snd (ASRControl ''model'' ''voice_cmd.dic'' ''voice_cmd.kwlist'' ''cmd_vel''
      [Audio ''ab'' (Some \<lparr>hypstr = ''full speed'',
          segs = [\<lparr>word = ''full speed'', prob = 0, start_frame = 12, end_frame = 57\<rparr>]\<rparr>)]))) = 0.4"
    by code_simp
  from e speed_mode_never_returns [OF e, of
       "[Audio ''cd'' (Some \<lparr>hypstr = ''full speed'',
          segs = [\<lparr>word = ''full speed'', prob = 0, start_frame = 3, end_frame = 40\<rparr>]\<rparr>),
        Audio ''ef'' None, Is_shutdown]"]
  show ?thesis by blast
qed

end
